theory Spec2Isabelle
  imports Complex_Main
begin

section \<open>Python values and errors\<close>

text \<open>
  The service is Python.  Floats are modelled as exact reals, unbounded integers as
  \<open>int\<close>, strings as \<open>string\<close>.  Every \<open>raise\<close> of the source is a value
  \<open>Inl e\<close> of a result type \<open>py_error + 'a\<close>; a \<open>try/except\<close> is a case
  distinction on that result.
\<close>

datatype py_error =
    ZeroDivisionError
  | ValueError
  | KeyError string
  | ConnectionError
  | ResponseError

definition py_div :: "real \<Rightarrow> real \<Rightarrow> py_error + real" where
  \<comment> \<open>\<open>a / b\<close> on Python floats: a zero divisor raises.\<close>
  "py_div a b = (if b = 0 then Inl ZeroDivisionError else Inr (a / b))"

definition math_log :: "real \<Rightarrow> py_error + real" where
  \<comment> \<open>\<open>math.log\<close>: a non-positive argument raises \<open>ValueError\<close> (math domain error).\<close>
  "math_log x = (if x \<le> 0 then Inl ValueError else Inr (ln x))"

section \<open>Options analytics: Black-Scholes Greeks (main.py, lines 47-137)\<close>

subsection \<open>The standard normal distribution (\<open>scipy.stats.norm\<close>)\<close>

definition norm_pdf :: "real \<Rightarrow> real" where
  "norm_pdf x = exp (- (x\<^sup>2) / 2) / sqrt (2 * pi)"

text \<open>
  \<open>norm.cdf\<close> is one half plus the area under the density between 0 and \<open>x\<close>.  The
  area under \<open>exp (- t\<^sup>2 / 2)\<close> from 0 to \<open>x\<close> is given by its Taylor series, which
  converges for every \<open>x\<close>: the sum over \<open>n\<close> of
  \<^verbatim>\<open>(-1)^n * x^(2n+1) / (2^n * n! * (2n+1))\<close>.
\<close>

definition cdf_coeff :: "nat \<Rightarrow> real" where
  "cdf_coeff n = (- 1) ^ n / (2 ^ n * fact n * real (2 * n + 1))"

definition gauss_area :: "real \<Rightarrow> real" where
  "gauss_area x = (\<Sum>n. cdf_coeff n * x ^ (2 * n + 1))"

definition norm_cdf :: "real \<Rightarrow> real" where
  "norm_cdf x = 1 / 2 + gauss_area x / sqrt (2 * pi)"

subsection \<open>Time to expiry\<close>

text \<open>
  \<open>calculate_days_to_expiration\<close> parses the expiration string with
  \<open>datetime.strptime\<close> and subtracts \<open>datetime.now()\<close>.  Both are library calls on
  the string and the clock; the model takes their outcome: \<open>Some days\<close> is the value of
  \<open>(exp_date - datetime.now()).days\<close>, \<open>None\<close> is a string that \<open>strptime\<close>
  rejects (the bare \<open>except\<close> then answers 30 days).
\<close>

definition calculate_days_to_expiration :: "int option \<Rightarrow> real" where
  "calculate_days_to_expiration parsed =
     (case parsed of
        Some days \<Rightarrow> real_of_int (max 1 days) / 365
      | None \<Rightarrow> 30 / 365)"

subsection \<open>The four Greeks\<close>

definition risk_free :: real where
  "risk_free = 0.05"

definition bs_d1 :: "real \<Rightarrow> real \<Rightarrow> real \<Rightarrow> real \<Rightarrow> py_error + real" where
  \<comment> \<open>\<open>(math.log(S / K) + (r + 0.5 * sigma ** 2) * T) / (sigma * math.sqrt(T))\<close>,
      the expression each of the four functions evaluates.\<close>
  "bs_d1 S K sigma T =
     (case py_div S K of
        Inl e \<Rightarrow> Inl e
      | Inr q \<Rightarrow>
          (case math_log q of
             Inl e \<Rightarrow> Inl e
           | Inr l \<Rightarrow> py_div (l + (risk_free + 0.5 * sigma\<^sup>2) * T) (sigma * sqrt T)))"

definition delta_default :: "string \<Rightarrow> real" where
  "delta_default option_type = (if option_type = ''call'' then 0.5 else - 0.5)"

definition delta_try :: "real \<Rightarrow> real \<Rightarrow> real \<Rightarrow> int option \<Rightarrow> string \<Rightarrow> py_error + real" where
  \<comment> \<open>The body of the \<open>try\<close> of \<open>calculate_delta\<close>.  The warning for a low
      at-the-money delta only logs, but its test divides by \<open>S\<close>.\<close>
  "delta_try S K sigma parsed option_type =
     (let T = calculate_days_to_expiration parsed in
      if sigma \<le> 0 \<or> T \<le> 0 then Inr (delta_default option_type)
      else
        (case bs_d1 S K sigma T of
           Inl e \<Rightarrow> Inl e
         | Inr d1 \<Rightarrow>
             (let delta = (if option_type = ''call'' then norm_cdf d1 else norm_cdf d1 - 1) in
              case py_div \<bar>S - K\<bar> S of
                Inl e \<Rightarrow> Inl e
              | Inr _ \<Rightarrow> Inr delta)))"

definition calculate_delta :: "real \<Rightarrow> real \<Rightarrow> real \<Rightarrow> int option \<Rightarrow> string \<Rightarrow> py_error + real" where
  \<comment> \<open>\<open>except Exception\<close>: log and return the default.\<close>
  "calculate_delta S K sigma parsed option_type =
     (case delta_try S K sigma parsed option_type of
        Inr delta \<Rightarrow> Inr delta
      | Inl e \<Rightarrow> Inr (delta_default option_type))"

definition gamma_try :: "real \<Rightarrow> real \<Rightarrow> real \<Rightarrow> int option \<Rightarrow> py_error + real" where
  "gamma_try S K sigma parsed =
     (let T = calculate_days_to_expiration parsed in
      if sigma \<le> 0 \<or> T \<le> 0 then Inr 0.001
      else
        (case bs_d1 S K sigma T of
           Inl e \<Rightarrow> Inl e
         | Inr d1 \<Rightarrow>
             (case py_div (norm_pdf d1) (S * sigma * sqrt T) of
                Inl e \<Rightarrow> Inl e
              | Inr gamma \<Rightarrow> Inr (max gamma 0.0001))))"

definition calculate_gamma :: "real \<Rightarrow> real \<Rightarrow> real \<Rightarrow> int option \<Rightarrow> py_error + real" where
  "calculate_gamma S K sigma parsed =
     (case gamma_try S K sigma parsed of
        Inr gamma \<Rightarrow> Inr gamma
      | Inl e \<Rightarrow> Inr 0.001)"

definition theta_try :: "real \<Rightarrow> real \<Rightarrow> real \<Rightarrow> int option \<Rightarrow> string \<Rightarrow> py_error + real" where
  "theta_try S K sigma parsed option_type =
     (let T = calculate_days_to_expiration parsed in
      if sigma \<le> 0 \<or> T \<le> 0 then Inr (- 0.05)
      else
        (case bs_d1 S K sigma T of
           Inl e \<Rightarrow> Inl e
         | Inr d1 \<Rightarrow>
             (let d2 = d1 - sigma * sqrt T in
              case py_div (- S * norm_pdf d1 * sigma) (2 * sqrt T) of
                Inl e \<Rightarrow> Inl e
              | Inr decay \<Rightarrow>
                  (let theta =
                     (if option_type = ''call''
                      then decay - risk_free * K * exp (- risk_free * T) * norm_cdf d2
                      else decay + risk_free * K * exp (- risk_free * T) * norm_cdf (- d2))
                   in Inr (theta / 365)))))"

definition calculate_theta :: "real \<Rightarrow> real \<Rightarrow> real \<Rightarrow> int option \<Rightarrow> string \<Rightarrow> py_error + real" where
  "calculate_theta S K sigma parsed option_type =
     (case theta_try S K sigma parsed option_type of
        Inr theta \<Rightarrow> Inr theta
      | Inl e \<Rightarrow> Inr (- 0.05))"

definition vega_try :: "real \<Rightarrow> real \<Rightarrow> real \<Rightarrow> int option \<Rightarrow> py_error + real" where
  "vega_try S K sigma parsed =
     (let T = calculate_days_to_expiration parsed in
      if sigma \<le> 0 \<or> T \<le> 0 then Inr 0.01
      else
        (case bs_d1 S K sigma T of
           Inl e \<Rightarrow> Inl e
         | Inr d1 \<Rightarrow> Inr (max (S * norm_pdf d1 * sqrt T / 100) 0.001)))"

definition calculate_vega :: "real \<Rightarrow> real \<Rightarrow> real \<Rightarrow> int option \<Rightarrow> py_error + real" where
  "calculate_vega S K sigma parsed =
     (case vega_try S K sigma parsed of
        Inr vega \<Rightarrow> Inr vega
      | Inl e \<Rightarrow> Inr 0.01)"

section \<open>Technical indicators (main.py, lines 588-616)\<close>

subsection \<open>Float arithmetic of pandas series\<close>

text \<open>
  A pandas series of floats does not raise on a division by zero: it yields an infinity
  or \<open>NaN\<close>, and the indicator functions drop the \<open>NaN\<close> points with \<open>pd.isna\<close>
  afterwards.  So the values of a computed series are finite reals, the two infinities or
  \<open>NaN\<close>, with the IEEE rules for the operations the indicators use.  Zero carries no
  sign here: a positive number over zero is \<open>PosInf\<close>.
\<close>

datatype pd_float = Fin real | PosInf | NegInf | NaN

fun pd_add :: "pd_float \<Rightarrow> pd_float \<Rightarrow> pd_float" where
  "pd_add NaN _ = NaN"
| "pd_add _ NaN = NaN"
| "pd_add (Fin a) (Fin b) = Fin (a + b)"
| "pd_add PosInf NegInf = NaN"
| "pd_add NegInf PosInf = NaN"
| "pd_add PosInf _ = PosInf"
| "pd_add _ PosInf = PosInf"
| "pd_add NegInf _ = NegInf"
| "pd_add _ NegInf = NegInf"

fun pd_neg :: "pd_float \<Rightarrow> pd_float" where
  "pd_neg (Fin a) = Fin (- a)"
| "pd_neg PosInf = NegInf"
| "pd_neg NegInf = PosInf"
| "pd_neg NaN = NaN"

definition pd_sub :: "pd_float \<Rightarrow> pd_float \<Rightarrow> pd_float" where
  "pd_sub a b = pd_add a (pd_neg b)"

fun pd_div :: "pd_float \<Rightarrow> pd_float \<Rightarrow> pd_float" where
  "pd_div NaN _ = NaN"
| "pd_div _ NaN = NaN"
| "pd_div (Fin a) (Fin b) =
     (if b = 0 then (if a = 0 then NaN else if 0 < a then PosInf else NegInf)
      else Fin (a / b))"
| "pd_div (Fin a) _ = Fin 0"
| "pd_div PosInf (Fin b) = (if 0 \<le> b then PosInf else NegInf)"
| "pd_div NegInf (Fin b) = (if 0 \<le> b then NegInf else PosInf)"
| "pd_div _ _ = NaN"

subsection \<open>Price history and chart points\<close>

text \<open>
  The indicators read the index and the \<open>Close\<close> column of a price history: one row
  per bar, \<open>stamp\<close> being \<open>int(index.timestamp())\<close> of the bar.  They return a list
  of \<open>{"time": ..., "value": ...}\<close> points.
\<close>

record price_row =
  stamp :: int
  close :: real

record point =
  time :: int
  "value" :: pd_float

text \<open>
  \<open>series.rolling(window=w).mean()\<close>: position \<open>i\<close> holds the mean of the \<open>w\<close>
  values ending at \<open>i\<close>, and \<open>NaN\<close> while fewer than \<open>w\<close> values are available
  (\<open>min_periods\<close> defaults to the window).
\<close>

definition rolling_at :: "nat \<Rightarrow> real list \<Rightarrow> nat \<Rightarrow> pd_float" where
  "rolling_at w xs i =
     (if w = 0 \<or> i + 1 < w then NaN
      else Fin (sum_list (take w (drop (i + 1 - w) xs)) / real w))"

definition rolling_mean :: "nat \<Rightarrow> real list \<Rightarrow> pd_float list" where
  "rolling_mean w xs = map (rolling_at w xs) [0..<length xs]"

text \<open>
  The loop \<open>for index, value in series.items(): if not pd.isna(value): result.append(...)\<close>
  shared by the indicator functions.
\<close>

fun emit :: "(int \<times> pd_float) list \<Rightarrow> point list" where
  "emit [] = []"
| "emit ((index, v) # rest) =
     (if v \<noteq> NaN then \<lparr>time = index, value = v\<rparr> # emit rest else emit rest)"

definition calculate_sma :: "price_row list \<Rightarrow> nat \<Rightarrow> point list" where
  "calculate_sma data period =
     (let sma = rolling_mean period (map close data)
      in emit (zip (map stamp data) sma))"

text \<open>
  \<open>series.diff()\<close>: the first entry is \<open>NaN\<close> (\<open>None\<close> here), every other one the
  difference to its predecessor.  \<open>delta.where(delta > 0, 0)\<close> keeps an entry where the
  test holds and puts 0 elsewhere; the test is false on \<open>NaN\<close>.
\<close>

fun diff_from :: "real \<Rightarrow> real list \<Rightarrow> real option list" where
  "diff_from prev [] = []"
| "diff_from prev (x # xs) = Some (x - prev) # diff_from x xs"

fun diff :: "real list \<Rightarrow> real option list" where
  "diff [] = []"
| "diff (x # xs) = None # diff_from x xs"

fun keep_positive :: "real option \<Rightarrow> real" where
  "keep_positive (Some d) = (if 0 < d then d else 0)"
| "keep_positive None = 0"

fun keep_negative :: "real option \<Rightarrow> real" where
  "keep_negative (Some d) = (if d < 0 then d else 0)"
| "keep_negative None = 0"

definition calculate_rsi :: "price_row list \<Rightarrow> nat \<Rightarrow> point list" where
  "calculate_rsi data period =
     (let delta = diff (map close data);
          gain = rolling_mean period (map keep_positive delta);
          loss = rolling_mean period (map (\<lambda>d. - keep_negative d) delta);
          rs = map2 pd_div gain loss;
          rsi = map (\<lambda>r. pd_sub (Fin 100) (pd_div (Fin 100) (pd_add (Fin 1) r))) rs
      in emit (zip (map stamp data) rsi))"

section \<open>Portfolio analytics (portfolio_analytics.py)\<close>

subsection \<open>Dictionaries\<close>

text \<open>
  A Python \<open>dict\<close> keeps its keys in insertion order and holds each key once: an
  association list with distinct keys.  Assigning to a key that is present replaces its
  value in place; reading a key that is absent raises \<open>KeyError\<close>.
\<close>

type_synonym 'v dict = "(string \<times> 'v) list"

fun dict_set :: "'v dict \<Rightarrow> string \<Rightarrow> 'v \<Rightarrow> 'v dict" where
  "dict_set [] k v = [(k, v)]"
| "dict_set ((k', v') # rest) k v =
     (if k' = k then (k, v) # rest else (k', v') # dict_set rest k v)"

definition dict_getitem :: "'v dict \<Rightarrow> string \<Rightarrow> py_error + 'v" where
  "dict_getitem d k = (case map_of d k of None \<Rightarrow> Inl (KeyError k) | Some v \<Rightarrow> Inr v)"

subsection \<open>Portfolio weights in \<open>calculate_portfolio_metrics\<close> (lines 177-185)\<close>

definition equal_weights :: "string list \<Rightarrow> real dict" where
  \<comment> \<open>\<open>{sym: 1.0 / len(symbols) for sym in symbols}\<close>\<close>
  "equal_weights symbols =
     fold (\<lambda>sym d. dict_set d sym (1 / real (length symbols))) symbols []"

fun divide_weights :: "real dict \<Rightarrow> real \<Rightarrow> py_error + real dict" where
  \<comment> \<open>\<open>{k: v / total_weight for k, v in portfolio_weights.items()}\<close>\<close>
  "divide_weights [] total_weight = Inr []"
| "divide_weights ((k, v) # rest) total_weight =
     (case py_div v total_weight of
        Inl e \<Rightarrow> Inl e
      | Inr q \<Rightarrow>
          (case divide_weights rest total_weight of
             Inl e \<Rightarrow> Inl e
           | Inr rest' \<Rightarrow> Inr ((k, q) # rest')))"

record weight_step =
  portfolio_weights :: "real dict"
  warned :: bool

definition calculate_portfolio_metrics_weights :: "string list \<Rightarrow> real dict option \<Rightarrow> py_error + weight_step" where
  \<comment> \<open>The weight handling of \<open>calculate_portfolio_metrics\<close>: default to equal
      weights, then "Ensure weights sum to 1.0".  \<open>warned\<close> records the
      \<open>logger.warning\<close> of the normalising branch.\<close>
  "calculate_portfolio_metrics_weights symbols given =
     (let supplied = (case given of None \<Rightarrow> equal_weights symbols | Some w \<Rightarrow> w);
          total_weight = sum_list (map snd supplied)
      in if \<bar>total_weight - 1.0\<bar> > 0.01
         then (case divide_weights supplied total_weight of
                 Inl e \<Rightarrow> Inl e
               | Inr normalized \<Rightarrow> Inr \<lparr>portfolio_weights = normalized, warned = True\<rparr>)
         else Inr \<lparr>portfolio_weights = supplied, warned = False\<rparr>)"

subsection \<open>Monte Carlo simulation: \<open>run_monte_carlo\<close> (lines 450-506)\<close>

text \<open>
  The numpy reductions \<open>run_monte_carlo\<close> applies to the final values.  On an empty
  array \<open>np.min\<close>, \<open>np.max\<close> and \<open>np.argmin\<close> raise \<open>ValueError\<close>;
  \<open>np.mean\<close>, \<open>np.median\<close>, \<open>np.std\<close> and \<open>np.percentile\<close> only warn
  and yield \<open>NaN\<close> there, so their value on the empty list is left as HOL computes it
  and is never read: \<open>np.min\<close> raises before anything uses it.
\<close>

definition np_mean :: "real list \<Rightarrow> real" where
  "np_mean xs = sum_list xs / real (length xs)"

definition np_std :: "real list \<Rightarrow> real" where
  "np_std xs = sqrt (np_mean (map (\<lambda>x. (x - np_mean xs)\<^sup>2) xs))"

definition np_percentile :: "real list \<Rightarrow> real \<Rightarrow> real" where
  \<comment> \<open>Linear interpolation between the two closest ranks of the sorted values.\<close>
  "np_percentile xs q =
     (let s = sort xs;
          h = real (length xs - 1) * q / 100;
          lo = nat \<lfloor>h\<rfloor>;
          hi = min (lo + 1) (length xs - 1)
      in s ! lo + (h - real lo) * (s ! hi - s ! lo))"

definition np_median :: "real list \<Rightarrow> real" where
  "np_median xs =
     (let s = sort xs; n = length xs
      in if odd n then s ! (n div 2) else (s ! (n div 2 - 1) + s ! (n div 2)) / 2)"

definition np_min :: "real list \<Rightarrow> py_error + real" where
  "np_min xs = (case xs of [] \<Rightarrow> Inl ValueError | x # rest \<Rightarrow> Inr (fold min rest x))"

definition np_max :: "real list \<Rightarrow> py_error + real" where
  "np_max xs = (case xs of [] \<Rightarrow> Inl ValueError | x # rest \<Rightarrow> Inr (fold max rest x))"

fun argmin_from :: "nat \<Rightarrow> real \<Rightarrow> nat \<Rightarrow> real list \<Rightarrow> nat" where
  \<comment> \<open>Index of the first smallest entry: \<open>best\<close> at \<open>besti\<close> so far, \<open>i\<close> the next index.\<close>
  "argmin_from besti best i [] = besti"
| "argmin_from besti best i (x # xs) =
     (if x < best then argmin_from i x (i + 1) xs else argmin_from besti best (i + 1) xs)"

definition np_argmin :: "real list \<Rightarrow> py_error + nat" where
  "np_argmin xs = (case xs of [] \<Rightarrow> Inl ValueError | x # rest \<Rightarrow> Inr (argmin_from 0 x 1 rest))"

text \<open>
  The simulation loop.  Each day draws a vector of standard normals
  (\<open>np.random.randn\<close>); the model takes the draws as an input, \<open>randn sim day\<close>
  being the vector drawn for that simulation and day.  \<open>np.dot\<close> raises on operands of
  different lengths; the loop completes only on operands that fit, and for those the sums
  below are the products numpy computes.
\<close>

definition np_dot :: "real list \<Rightarrow> real list \<Rightarrow> real" where
  "np_dot a b = sum_list (map2 (\<lambda>x y. x * y) a b)"

record simulation_input =
  mean_returns :: "real list"
  cholesky :: "real list list"
  asset_weights :: "real list"
  randn :: "nat \<Rightarrow> nat \<Rightarrow> real list"

definition portfolio_return :: "simulation_input \<Rightarrow> nat \<Rightarrow> nat \<Rightarrow> real" where
  "portfolio_return inp sim day =
     (let random_returns = map (\<lambda>row. np_dot row (randn inp sim day)) (cholesky inp);
          daily_returns = map2 (+) (mean_returns inp) random_returns
      in np_dot (asset_weights inp) daily_returns)"

fun compound :: "real \<Rightarrow> real list \<Rightarrow> real list" where
  \<comment> \<open>\<open>portfolio_value *= (1 + portfolio_return)\<close>, day after day.\<close>
  "compound portfolio_value [] = []"
| "compound portfolio_value (r # rs) =
     portfolio_value * (1 + r) # compound (portfolio_value * (1 + r)) rs"

definition simulate :: "simulation_input \<Rightarrow> real \<Rightarrow> nat \<Rightarrow> nat \<Rightarrow> real list list" where
  \<comment> \<open>The rows of \<open>simulation_paths\<close> after the loop: column 0 holds the initial
      capital, column \<open>day + 1\<close> the value after that day.\<close>
  "simulate inp initial_capital time_horizon_days num_simulations =
     map (\<lambda>sim. initial_capital #
            compound initial_capital (map (portfolio_return inp sim) [0..<time_horizon_days]))
         [0..<num_simulations]"

definition mc_statistics :: "real list \<Rightarrow> real \<Rightarrow> py_error + real dict" where
  \<comment> \<open>The \<open>statistics\<close> dictionary, its entries evaluated in the order written.\<close>
  "mc_statistics final_values initial_capital =
     (case np_min final_values of
        Inl e \<Rightarrow> Inl e
      | Inr lowest \<Rightarrow>
          (case np_max final_values of
             Inl e \<Rightarrow> Inl e
           | Inr highest \<Rightarrow>
               Inr [(''mean'', np_mean final_values),
                    (''median'', np_median final_values),
                    (''std'', np_std final_values),
                    (''min'', lowest),
                    (''max'', highest),
                    (''percentile5'', np_percentile final_values 5),
                    (''percentile25'', np_percentile final_values 25),
                    (''percentile75'', np_percentile final_values 75),
                    (''percentile95'', np_percentile final_values 95),
                    (''probPositive'',
                       np_mean (map (\<lambda>v. if v > initial_capital then 1 else 0) final_values))]))"

definition percentile_path ::
  "real list list \<Rightarrow> real list \<Rightarrow> real dict \<Rightarrow> string \<Rightarrow> py_error + real list" where
  \<comment> \<open>\<open>simulation_paths[np.argmin(np.abs(final_values - statistics[key]))].tolist()\<close>\<close>
  "percentile_path simulation_paths final_values statistics key =
     (case dict_getitem statistics key of
        Inl e \<Rightarrow> Inl e
      | Inr target \<Rightarrow>
          (case np_argmin (map (\<lambda>v. \<bar>v - target\<bar>) final_values) of
             Inl e \<Rightarrow> Inl e
           | Inr i \<Rightarrow> Inr (simulation_paths ! i)))"

fun percentile_paths ::
  "real list list \<Rightarrow> real list \<Rightarrow> real dict \<Rightarrow> (nat \<times> string) list
     \<Rightarrow> py_error + (nat \<times> real list) list" where
  "percentile_paths simulation_paths final_values statistics [] = Inr []"
| "percentile_paths simulation_paths final_values statistics ((p, key) # rest) =
     (case percentile_path simulation_paths final_values statistics key of
        Inl e \<Rightarrow> Inl e
      | Inr path \<Rightarrow>
          (case percentile_paths simulation_paths final_values statistics rest of
             Inl e \<Rightarrow> Inl e
           | Inr paths \<Rightarrow> Inr ((p, path) # paths)))"

record monte_carlo_result =
  statistics :: "real dict"
  percentilePaths :: "(nat \<times> real list) list"
  samplePaths :: "real list list"
  initialCapital :: real
  timeHorizonDays :: nat
  numSimulations :: nat

definition run_monte_carlo ::
  "simulation_input \<Rightarrow> real \<Rightarrow> nat \<Rightarrow> nat \<Rightarrow> nat list \<Rightarrow> py_error + monte_carlo_result" where
  \<comment> \<open>\<open>run_monte_carlo\<close> from the simulation loop on.  \<open>sample_indices\<close> is the
      outcome of \<open>np.random.choice\<close>.\<close>
  "run_monte_carlo inp initial_capital time_horizon_days num_simulations sample_indices =
     (let simulation_paths = simulate inp initial_capital time_horizon_days num_simulations;
          final_values = map last simulation_paths
      in case mc_statistics final_values initial_capital of
           Inl e \<Rightarrow> Inl e
         | Inr stats \<Rightarrow>
             (case percentile_paths simulation_paths final_values stats
                     [(5, ''percentile5''), (25, ''percentile25''), (50, ''percentile50''),
                      (75, ''percentile75''), (95, ''percentile95'')] of
                Inl e \<Rightarrow> Inl e
              | Inr paths \<Rightarrow>
                  Inr \<lparr>statistics = stats,
                       percentilePaths = paths,
                       samplePaths = map (\<lambda>i. simulation_paths ! i) sample_indices,
                       initialCapital = initial_capital,
                       timeHorizonDays = time_horizon_days,
                       numSimulations = num_simulations\<rparr>))"

section \<open>Cache layer (main.py, lines 469-502)\<close>

subsection \<open>Cached values and their JSON form\<close>

text \<open>
  The values the endpoints cache are built from \<open>None\<close>, booleans, numbers, strings,
  lists, tuples and dictionaries with string keys.  \<open>json.dumps\<close> writes a tuple as an
  array, and \<open>json.loads\<close> reads every array back as a list; the text of the document
  is the business of the \<open>json\<close> module, so the model stops at the document.  On such
  values \<open>json.dumps\<close> never needs its \<open>default=str\<close> and never raises.
\<close>

datatype py_value =
    PyNone
  | PyBool bool
  | PyInt int
  | PyFloat real
  | PyStr string
  | PyList "py_value list"
  | PyTuple "py_value list"
  | PyDict "(string \<times> py_value) list"

datatype json =
    JNull
  | JBool bool
  | JInt int
  | JFloat real
  | JString string
  | JArray "json list"
  | JObject "(string \<times> json) list"

fun json_dumps :: "py_value \<Rightarrow> json" where
  "json_dumps PyNone = JNull"
| "json_dumps (PyBool b) = JBool b"
| "json_dumps (PyInt i) = JInt i"
| "json_dumps (PyFloat x) = JFloat x"
| "json_dumps (PyStr s) = JString s"
| "json_dumps (PyList vs) = JArray (map json_dumps vs)"
| "json_dumps (PyTuple vs) = JArray (map json_dumps vs)"
| "json_dumps (PyDict kvs) = JObject (map (map_prod id json_dumps) kvs)"

fun json_loads :: "json \<Rightarrow> py_value" where
  "json_loads JNull = PyNone"
| "json_loads (JBool b) = PyBool b"
| "json_loads (JInt i) = PyInt i"
| "json_loads (JFloat x) = PyFloat x"
| "json_loads (JString s) = PyStr s"
| "json_loads (JArray js) = PyList (map json_loads js)"
| "json_loads (JObject kjs) = PyDict (map (map_prod id json_loads) kjs)"

definition json_roundtrip :: "py_value \<Rightarrow> py_value" where
  "json_roundtrip v = json_loads (json_dumps v)"

subsection \<open>The Redis backend\<close>

text \<open>
  Redis is an external server.  The model keeps what the two calls of the cache layer
  depend on: whether the server answers (a call to a server that does not answer raises),
  and the documents it holds, each with the time at which Redis expires it.  \<open>SETEX\<close>
  rejects a time to live that is not positive.
\<close>

record redis =
  reachable :: bool
  entries :: "string \<Rightarrow> (json \<times> real) option"

definition redis_get :: "redis \<Rightarrow> real \<Rightarrow> string \<Rightarrow> py_error + json option" where
  "redis_get r now key =
     (if \<not> reachable r then Inl ConnectionError
      else case entries r key of
             None \<Rightarrow> Inr None
           | Some (doc, expires) \<Rightarrow> Inr (if now < expires then Some doc else None))"

definition redis_setex :: "redis \<Rightarrow> real \<Rightarrow> string \<Rightarrow> int \<Rightarrow> json \<Rightarrow> py_error + redis" where
  "redis_setex r now key ttl doc =
     (if \<not> reachable r then Inl ConnectionError
      else if ttl \<le> 0 then Inl ResponseError
      else Inr (r\<lparr>entries := (entries r)(key \<mapsto> (doc, now + real_of_int ttl))\<rparr>))"

subsection \<open>\<open>get_cache\<close> and \<open>set_cache\<close>\<close>

text \<open>
  The module-level state of the cache: the Redis client (\<open>None\<close> when none is
  configured; the client object exists even when the ping at startup failed) and the
  dictionary \<open>_memory_cache\<close> from key to
  \<open>(data, expiration_timestamp)\<close>.  \<open>now\<close> is the reading of \<open>time.time()\<close>.
\<close>

record cache =
  redis_client :: "redis option"
  memory_cache :: "string \<Rightarrow> (py_value \<times> real) option"

definition redis_lookup :: "cache \<Rightarrow> real \<Rightarrow> string \<Rightarrow> json option" where
  \<comment> \<open>The first block of \<open>get_cache\<close>: \<open>redis_client.get(key)\<close> inside
      \<open>try ... except: pass\<close>.  A stored document is never the empty string, so
      \<open>if cached\<close> holds exactly when Redis returned one.\<close>
  "redis_lookup c now key =
     (case redis_client c of
        None \<Rightarrow> None
      | Some r \<Rightarrow> (case redis_get r now key of Inl e \<Rightarrow> None | Inr cached \<Rightarrow> cached))"

definition get_cache :: "cache \<Rightarrow> real \<Rightarrow> string \<Rightarrow> py_value \<times> cache" where
  "get_cache c now key =
     (case redis_lookup c now key of
        Some cached \<Rightarrow> (json_loads cached, c)
      | None \<Rightarrow>
          (case memory_cache c key of
             Some (data, expiration) \<Rightarrow>
               if now < expiration then (data, c)
               else (PyNone, c\<lparr>memory_cache := (memory_cache c)(key := None)\<rparr>)
           | None \<Rightarrow> (PyNone, c)))"

definition memory_set :: "cache \<Rightarrow> real \<Rightarrow> string \<Rightarrow> py_value \<Rightarrow> int \<Rightarrow> cache" where
  \<comment> \<open>"Fallback to in-memory cache"\<close>
  "memory_set c now key data ttl_seconds =
     (let expiration = now + real_of_int ttl_seconds
      in c\<lparr>memory_cache := (memory_cache c)(key \<mapsto> (data, expiration))\<rparr>)"

definition set_cache :: "cache \<Rightarrow> real \<Rightarrow> string \<Rightarrow> py_value \<Rightarrow> int \<Rightarrow> cache" where
  "set_cache c now key data ttl_seconds =
     (case redis_client c of
        None \<Rightarrow> memory_set c now key data ttl_seconds
      | Some r \<Rightarrow>
          (case redis_setex r now key ttl_seconds (json_dumps data) of
             Inr r' \<Rightarrow> c\<lparr>redis_client := Some r'\<rparr>
           | Inl e \<Rightarrow> memory_set c now key data ttl_seconds))"

definition redis_answers :: "cache \<Rightarrow> bool" where
  "redis_answers c = (case redis_client c of None \<Rightarrow> False | Some r \<Rightarrow> reachable r)"


section \<open>Backtesting engine: request validation and date alignment (main.py)\<close>

text \<open>
  A fetched history is a data frame with the columns Open, High, Low, Close and Volume,
  one row per trading date; \<open>stamp\<close> is the date in the index.
\<close>

record ohlcv_row = price_row +
  opn :: real
  high :: real
  low :: real
  volume :: real

type_synonym dataframe = "ohlcv_row list"

datatype http_exception = HTTPException (status_code: nat) (detail: string)

record backtest_request =
  req_symbols :: "string list"
  req_weights :: "real list option"
  req_initial_capital :: real
  req_strategy :: string
  req_lookback_period :: nat

definition request_weights :: "backtest_request \<Rightarrow> real list" where
  \<comment> \<open>"Default equal weights if not provided": \<open>not weights\<close> holds for a missing
      and for an empty list.\<close>
  "request_weights request =
     (let n = length (req_symbols request)
      in case req_weights request of
           None \<Rightarrow> replicate n (1 / real n)
         | Some ws \<Rightarrow> if ws = [] then replicate n (1 / real n) else ws)"

definition collect_stock_data :: "string list \<Rightarrow> dataframe option list \<Rightarrow> dataframe dict" where
  \<comment> \<open>"Filter out None values and create dict of dataframes"; \<open>hist_data_list\<close> holds
      what \<open>fetch_full_history\<close> returned for each symbol, \<open>None\<close> for a symbol whose
      history could not be fetched.\<close>
  "collect_stock_data syms hist_data_list =
     fold (\<lambda>(sym, hist_df) stock_data.
             case hist_df of
               None \<Rightarrow> stock_data
             | Some df \<Rightarrow> if df \<noteq> [] then dict_set stock_data sym df else stock_data)
          (zip syms hist_data_list) []"

definition align_dates :: "dataframe list \<Rightarrow> int set option" where
  \<comment> \<open>"Align all dataframes to same dates": \<open>common_dates\<close> starts as \<open>None\<close>.\<close>
  "align_dates frames =
     fold (\<lambda>df common_dates.
             case common_dates of
               None \<Rightarrow> Some (set (map stamp df))
             | Some dates \<Rightarrow> Some (dates \<inter> set (map stamp df)))
          frames None"

definition backtest_strategy ::
  "(backtest_request \<Rightarrow> real list \<Rightarrow> dataframe dict \<Rightarrow> int list \<Rightarrow> http_exception + 'r)
     \<Rightarrow> backtest_request \<Rightarrow> dataframe option list \<Rightarrow> http_exception + 'r" where
  \<comment> \<open>The handler (lines 2185-2802) up to the strategy loop.  \<open>strategy_loop\<close> stands
      for the rest of the handler: the day-by-day loop over the sorted dates and the
      summary statistics.  The test before the loop is
      \<open>not common_dates or len(common_dates) < 50\<close>, and \<open>common_dates\<close> is still
      \<open>None\<close> only when no data frame was seen.  An \<open>HTTPException\<close> raised inside
      the \<open>try\<close> is re-raised as it is (\<open>except HTTPException: raise\<close>).\<close>
  "backtest_strategy strategy_loop request hist_data_list =
     (if req_symbols request = [] then Inl (HTTPException 400 ''Symbols list is required'')
      else if length (req_symbols request) \<noteq> length (request_weights request)
        then Inl (HTTPException 400 ''Symbols and weights length mismatch'')
      else
        (let stock_data = collect_stock_data (req_symbols request) hist_data_list
         in if stock_data = [] then Inl (HTTPException 400 ''No valid historical data found'')
            else
              (case align_dates (map snd stock_data) of
                 None \<Rightarrow> Inl (HTTPException 400 ''Insufficient overlapping historical data'')
               | Some common_dates \<Rightarrow>
                   if common_dates = {} \<or> card common_dates < 50
                   then Inl (HTTPException 400 ''Insufficient overlapping historical data'')
                   else strategy_loop request (request_weights request) stock_data
                          (sorted_list_of_set common_dates))))"

section \<open>Properties of the Greeks\<close>

lemma calculate_days_to_expiration_pos: "0 < calculate_days_to_expiration parsed"
  by (cases parsed) (simp_all add: calculate_days_to_expiration_def)

lemma handled_returns:
  "\<exists>v. (case r of Inl e \<Rightarrow> Inr d | Inr x \<Rightarrow> Inr x) = (Inr v :: py_error + real)"
  by (cases r) simp_all

lemma calculate_delta_returns: "\<exists>v. calculate_delta S K sigma parsed option_type = Inr v"
  unfolding calculate_delta_def by (rule handled_returns)

lemma calculate_gamma_returns: "\<exists>v. calculate_gamma S K sigma parsed = Inr v"
  unfolding calculate_gamma_def by (rule handled_returns)

lemma calculate_theta_returns: "\<exists>v. calculate_theta S K sigma parsed option_type = Inr v"
  unfolding calculate_theta_def by (rule handled_returns)

lemma calculate_vega_returns: "\<exists>v. calculate_vega S K sigma parsed = Inr v"
  unfolding calculate_vega_def by (rule handled_returns)

text \<open>
  Claim C9.  Whenever the implied volatility is not positive (or the computed time to
  expiry is not positive), each Greek returns its fixed default: delta 0.5 for a call and
  -0.5 for a put, gamma 0.001, theta -0.05, vega 0.01.  And on every input each of the
  four functions returns a value: none raises to its caller.
\<close>

theorem greeks_degenerate_defaults:
  assumes "sigma \<le> 0 \<or> calculate_days_to_expiration parsed \<le> 0"
  shows "calculate_delta S K sigma parsed ''call'' = Inr 0.5
       \<and> calculate_delta S K sigma parsed ''put'' = Inr (- 0.5)
       \<and> calculate_gamma S K sigma parsed = Inr 0.001
       \<and> calculate_theta S K sigma parsed option_type = Inr (- 0.05)
       \<and> calculate_vega S K sigma parsed = Inr 0.01
       \<and> (\<forall>S' K' sigma' parsed' ot'.
            (\<exists>v. calculate_delta S' K' sigma' parsed' ot' = Inr v)
          \<and> (\<exists>v. calculate_gamma S' K' sigma' parsed' = Inr v)
          \<and> (\<exists>v. calculate_theta S' K' sigma' parsed' ot' = Inr v)
          \<and> (\<exists>v. calculate_vega S' K' sigma' parsed' = Inr v))"
proof -
  have "calculate_delta S K sigma parsed ''call'' = Inr 0.5"
    using assms by (simp add: calculate_delta_def delta_try_def delta_default_def Let_def)
  moreover have "calculate_delta S K sigma parsed ''put'' = Inr (- 0.5)"
    using assms by (simp add: calculate_delta_def delta_try_def delta_default_def Let_def)
  moreover have "calculate_gamma S K sigma parsed = Inr 0.001"
    using assms by (simp add: calculate_gamma_def gamma_try_def Let_def)
  moreover have "calculate_theta S K sigma parsed option_type = Inr (- 0.05)"
    using assms by (simp add: calculate_theta_def theta_try_def Let_def)
  moreover have "calculate_vega S K sigma parsed = Inr 0.01"
    using assms by (simp add: calculate_vega_def vega_try_def Let_def)
  ultimately show ?thesis
    using calculate_delta_returns calculate_gamma_returns
      calculate_theta_returns calculate_vega_returns
    by blast
qed

theorem greeks_degenerate_defaults_witness:
  "calculate_delta 100 100 0 None ''call'' = Inr 0.5
 \<and> calculate_delta 100 100 0 None ''put'' = Inr (- 0.5)
 \<and> calculate_gamma 100 100 0 None = Inr 0.001
 \<and> calculate_theta 100 100 0 None ''put'' = Inr (- 0.05)
 \<and> calculate_vega 100 100 0 None = Inr 0.01"
  using greeks_degenerate_defaults [of 0 None 100 100 "''put''"] by simp

subsection \<open>The normal distribution function\<close>

lemma cdf_coeff_summable: "summable (\<lambda>n. cdf_coeff n * u ^ n)"
proof (rule summable_comparison_test)
  show "summable (\<lambda>n. inverse (fact n) * \<bar>u\<bar> ^ n)"
    by (rule summable_exp)
  show "\<exists>N. \<forall>n\<ge>N. norm (cdf_coeff n * u ^ n) \<le> inverse (fact n) * \<bar>u\<bar> ^ n"
  proof (intro exI allI impI)
    fix n :: nat
    have "\<bar>cdf_coeff n\<bar> = 1 / (2 ^ n * fact n * real (2 * n + 1))"
      by (simp add: cdf_coeff_def abs_divide abs_mult power_abs)
    also have "\<dots> \<le> 1 / (1 * fact n * 1)"
      by (intro divide_left_mono mult_mono) (simp_all add: one_le_power)
    finally have "\<bar>cdf_coeff n\<bar> \<le> inverse (fact n)"
      by (simp add: inverse_eq_divide)
    then have "\<bar>cdf_coeff n\<bar> * \<bar>u\<bar> ^ n \<le> inverse (fact n) * \<bar>u\<bar> ^ n"
      by (intro mult_right_mono) simp_all
    then show "norm (cdf_coeff n * u ^ n) \<le> inverse (fact n) * \<bar>u\<bar> ^ n"
      by (simp add: abs_mult power_abs)
  qed
qed

lemma gauss_area_factor: "gauss_area x = x * (\<Sum>n. cdf_coeff n * (x\<^sup>2) ^ n)"
proof -
  have "gauss_area x = (\<Sum>n. x * (cdf_coeff n * (x\<^sup>2) ^ n))"
    unfolding gauss_area_def by (rule arg_cong [where f = suminf]) (simp add: power_mult fun_eq_iff)
  also have "\<dots> = x * (\<Sum>n. cdf_coeff n * (x\<^sup>2) ^ n)"
    by (rule suminf_mult [OF cdf_coeff_summable])
  finally show ?thesis .
qed

lemma cdf_coeff_exp: "real (2 * n + 1) * cdf_coeff n * u ^ n = (- u / 2) ^ n /\<^sub>R fact n"
proof -
  have "real (2 * n + 1) * cdf_coeff n = (- 1) ^ n / (2 ^ n * fact n)"
    by (simp add: cdf_coeff_def)
  then have "real (2 * n + 1) * cdf_coeff n * u ^ n = (- 1) ^ n * u ^ n / (2 ^ n * fact n)"
    by simp
  moreover have "(- u / 2) ^ n = (- 1) ^ n * u ^ n / 2 ^ n"
    by (simp only: power_divide power_minus [of u n])
  moreover have "x /\<^sub>R fact n = x / fact n" for x :: real
    by (simp add: divide_inverse)
  ultimately show ?thesis
    by simp
qed

lemma cdf_series_exp:
  "(\<Sum>n. cdf_coeff n * u ^ n) + 2 * u * (\<Sum>n. diffs cdf_coeff n * u ^ n) = exp (- u / 2)"
proof -
  let ?f = "\<lambda>n. cdf_coeff n * u ^ n"
  let ?h = "\<lambda>n. real n * cdf_coeff n * u ^ n"
  have sf: "summable ?f" by (rule cdf_coeff_summable)
  have sd: "summable (\<lambda>n. diffs cdf_coeff n * u ^ n)"
    by (rule termdiff_converges_all) (rule cdf_coeff_summable)
  have shift: "(\<lambda>n. u * (diffs cdf_coeff n * u ^ n)) = (\<lambda>n. ?h (Suc n))"
    by (simp add: diffs_def fun_eq_iff)
  have "summable (\<lambda>n. u * (diffs cdf_coeff n * u ^ n))"
    by (rule summable_mult [OF sd])
  then have "summable (\<lambda>n. ?h (Suc n))" unfolding shift .
  then have sh: "summable ?h" by (rule iffD1 [OF summable_Suc_iff [of ?h]])
  have "u * (\<Sum>n. diffs cdf_coeff n * u ^ n) = (\<Sum>n. u * (diffs cdf_coeff n * u ^ n))"
    by (rule suminf_mult [OF sd, symmetric])
  also have "\<dots> = (\<Sum>n. ?h (Suc n))" unfolding shift ..
  also have "\<dots> = suminf ?h - ?h 0" by (rule suminf_split_head [OF sh])
  finally have dh: "u * (\<Sum>n. diffs cdf_coeff n * u ^ n) = suminf ?h" by simp
  have "suminf ?f + 2 * u * (\<Sum>n. diffs cdf_coeff n * u ^ n) = suminf ?f + 2 * suminf ?h"
    using dh by simp
  also have "\<dots> = suminf ?f + (\<Sum>n. 2 * ?h n)"
    by (simp only: suminf_mult [OF sh])
  also have "\<dots> = (\<Sum>n. ?f n + 2 * ?h n)"
    by (rule suminf_add [OF sf summable_mult [OF sh]])
  also have "(\<lambda>n. ?f n + 2 * ?h n) = (\<lambda>n. (- u / 2) ^ n /\<^sub>R fact n)"
  proof
    fix n
    have "?f n + 2 * ?h n = real (2 * n + 1) * cdf_coeff n * u ^ n"
      by (simp add: algebra_simps)
    then show "?f n + 2 * ?h n = (- u / 2) ^ n /\<^sub>R fact n"
      by (simp only: cdf_coeff_exp)
  qed
  also have "(\<Sum>n. (- u / 2) ^ n /\<^sub>R fact n) = exp (- u / 2)"
    by (simp only: exp_def)
  finally show ?thesis .
qed

lemma gauss_area_deriv: "DERIV gauss_area x :> exp (- (x\<^sup>2) / 2)"
proof -
  let ?H = "\<lambda>u. \<Sum>n. cdf_coeff n * u ^ n"
  let ?H' = "\<lambda>u. \<Sum>n. diffs cdf_coeff n * u ^ n"
  have H: "DERIV ?H u :> ?H' u" for u
    by (rule termdiffs_strong_converges_everywhere) (rule cdf_coeff_summable)
  have sq: "DERIV (\<lambda>x. x\<^sup>2) x :> 2 * x"
    by (auto intro!: derivative_eq_intros)
  have inner: "DERIV (\<lambda>x. ?H (x\<^sup>2)) x :> ?H' (x\<^sup>2) * (2 * x)"
    by (rule DERIV_chain2 [where f = ?H and g = "\<lambda>x. x\<^sup>2", OF H sq])
  have "DERIV (\<lambda>x. x * ?H (x\<^sup>2)) x :> 1 * ?H (x\<^sup>2) + (?H' (x\<^sup>2) * (2 * x)) * x"
    by (rule DERIV_mult [OF DERIV_ident inner])
  moreover have "1 * ?H (x\<^sup>2) + (?H' (x\<^sup>2) * (2 * x)) * x = exp (- (x\<^sup>2) / 2)"
  proof -
    have "(?H' (x\<^sup>2) * (2 * x)) * x = 2 * x\<^sup>2 * ?H' (x\<^sup>2)"
      by (simp only: power2_eq_square mult_ac)
    then show ?thesis
      using cdf_series_exp [of "x\<^sup>2"] by (simp only: mult_1)
  qed
  moreover have "gauss_area = (\<lambda>x. x * ?H (x\<^sup>2))"
    by (rule ext) (rule gauss_area_factor)
  ultimately show ?thesis by (simp only:)
qed


lemma gauss_area_zero: "gauss_area 0 = 0"
  by (simp add: gauss_area_factor)

lemma gauss_area_strict_mono:
  assumes "x < y"
  shows "gauss_area x < gauss_area y"
proof (rule DERIV_pos_imp_increasing [OF assms])
  fix t :: real
  show "\<exists>d. DERIV gauss_area t :> d \<and> 0 < d"
    using gauss_area_deriv [of t] by (intro exI [of _ "exp (- (t\<^sup>2) / 2)"]) simp
qed

lemma gauss_area_le_self:
  assumes "0 \<le> x"
  shows "gauss_area x \<le> x"
proof -
  have "(\<lambda>t. t - gauss_area t) 0 \<le> (\<lambda>t. t - gauss_area t) x"
  proof (rule DERIV_nonneg_imp_nondecreasing [OF assms])
    fix t :: real
    have "DERIV (\<lambda>t. t - gauss_area t) t :> 1 - exp (- (t\<^sup>2) / 2)"
      by (rule DERIV_diff [OF DERIV_ident gauss_area_deriv])
    moreover have "exp (- (t\<^sup>2) / 2) \<le> 1"
      by simp
    ultimately show "\<exists>d. DERIV (\<lambda>t. t - gauss_area t) t :> d \<and> 0 \<le> d"
      by (intro exI [of _ "1 - exp (- (t\<^sup>2) / 2)"]) simp
  qed
  then show ?thesis by (simp add: gauss_area_zero)
qed

lemma gauss_area_ge_cubic:
  assumes "0 \<le> x"
  shows "x - x ^ 3 / 6 \<le> gauss_area x"
proof -
  let ?f = "\<lambda>t. gauss_area t - (t - t ^ 3 / 6)"
  have "?f 0 \<le> ?f x"
  proof (rule DERIV_nonneg_imp_nondecreasing [OF assms])
    fix t :: real
    have "DERIV (\<lambda>t. t - t ^ 3 / 6) t :> 1 - t\<^sup>2 / 2"
      by (auto intro!: derivative_eq_intros)
    then have "DERIV ?f t :> exp (- (t\<^sup>2) / 2) - (1 - t\<^sup>2 / 2)"
      by (rule DERIV_diff [OF gauss_area_deriv])
    moreover have "1 + (- (t\<^sup>2) / 2) \<le> exp (- (t\<^sup>2) / 2)"
      by (rule exp_ge_add_one_self)
    ultimately show "\<exists>d. DERIV ?f t :> d \<and> 0 \<le> d"
      by (intro exI [of _ "exp (- (t\<^sup>2) / 2) - (1 - t\<^sup>2 / 2)"]) simp
  qed
  then show ?thesis by (simp add: gauss_area_zero)
qed

lemma sqrt_two_pi_bounds: "2 \<le> sqrt (2 * pi)" "sqrt (2 * pi) < 3"
proof -
  have "sqrt 4 \<le> sqrt (2 * pi)"
    using pi_ge_two by (intro real_sqrt_le_mono) simp
  then show "2 \<le> sqrt (2 * pi)" by simp
  have "sqrt (2 * pi) < sqrt 9"
    using pi_less_4 by (intro real_sqrt_less_mono) simp
  then show "sqrt (2 * pi) < 3" by simp
qed

lemma norm_cdf_gt_half:
  assumes "0 < x"
  shows "1 / 2 < norm_cdf x"
proof -
  have "0 < gauss_area x"
    using gauss_area_strict_mono [OF assms] by (simp add: gauss_area_zero)
  moreover have "0 < sqrt (2 * pi)"
    using sqrt_two_pi_bounds(1) by simp
  ultimately show ?thesis
    by (simp add: norm_cdf_def)
qed

lemma norm_cdf_mono:
  assumes "x \<le> y"
  shows "norm_cdf x \<le> norm_cdf y"
proof -
  have "gauss_area x \<le> gauss_area y"
    using assms gauss_area_strict_mono [of x y] by (cases "x = y") simp_all
  moreover have "0 < sqrt (2 * pi)"
    using sqrt_two_pi_bounds(1) by simp
  ultimately show ?thesis
    by (simp add: norm_cdf_def divide_right_mono)
qed

lemma norm_cdf_small:
  assumes "0 \<le> x" and "x < 2 / 5"
  shows "norm_cdf x < 7 / 10"
proof -
  have "gauss_area x / sqrt (2 * pi) \<le> x / sqrt (2 * pi)"
    using gauss_area_le_self [OF assms(1)] sqrt_two_pi_bounds(1)
    by (intro divide_right_mono) simp_all
  also have "\<dots> \<le> x / 2"
    using assms(1) sqrt_two_pi_bounds(1) by (intro divide_left_mono) simp_all
  finally have "gauss_area x / sqrt (2 * pi) \<le> x / 2" .
  then show ?thesis
    using assms(2) unfolding norm_cdf_def by linarith
qed

lemma norm_cdf_one: "7 / 10 < norm_cdf 1"
proof -
  have "5 / 6 \<le> gauss_area 1"
    using gauss_area_ge_cubic [of 1] by simp
  moreover have "(5 / 6) / 3 < (5 / 6) / sqrt (2 * pi)"
    using sqrt_two_pi_bounds by (intro divide_strict_left_mono) simp_all
  moreover have "(5 / 6) / sqrt (2 * pi) \<le> gauss_area 1 / sqrt (2 * pi)"
    using \<open>5 / 6 \<le> gauss_area 1\<close> sqrt_two_pi_bounds(1) by (intro divide_right_mono) simp_all
  ultimately show ?thesis
    by (simp add: norm_cdf_def)
qed

text \<open>
  The function so defined is the distribution function of the standard normal law: it is
  one half at 0 and its derivative is the density.
\<close>

lemma norm_cdf_zero: "norm_cdf 0 = 1 / 2"
  by (simp add: norm_cdf_def gauss_area_zero)

lemma norm_cdf_deriv: "DERIV norm_cdf x :> norm_pdf x"
proof -
  have "DERIV (\<lambda>x. 1 / 2 + gauss_area x / sqrt (2 * pi)) x
          :> 0 + exp (- (x\<^sup>2) / 2) / sqrt (2 * pi)"
    by (rule DERIV_add [OF DERIV_const DERIV_cdivide [OF gauss_area_deriv]])
  moreover have "norm_cdf = (\<lambda>x. 1 / 2 + gauss_area x / sqrt (2 * pi))"
    by (rule ext) (simp add: norm_cdf_def)
  ultimately show ?thesis
    by (simp add: norm_pdf_def)
qed

subsection \<open>At-the-money call delta\<close>

lemma calculate_delta_at_the_money:
  assumes "0 < S" and "0 < sigma"
  shows "calculate_delta S S sigma parsed ''call'' =
     Inr (norm_cdf ((risk_free + 0.5 * sigma\<^sup>2) * calculate_days_to_expiration parsed
            / (sigma * sqrt (calculate_days_to_expiration parsed))))"
proof -
  have T: "0 < calculate_days_to_expiration parsed"
    by (rule calculate_days_to_expiration_pos)
  then have "sigma * sqrt (calculate_days_to_expiration parsed) \<noteq> 0"
    using assms(2) by simp
  then show ?thesis
    using assms T
    by (simp add: calculate_delta_def delta_try_def bs_d1_def py_div_def math_log_def Let_def)
qed

text \<open>
  Claim C1, as amended.  For an at-the-money call (\<open>S = K > 0\<close>) with positive implied
  volatility and any expiration, \<open>calculate_delta\<close> returns \<open>norm.cdf(d1)\<close> with
  \<open>d1 = (0.05 + sigma\<^sup>2 / 2) T / (sigma sqrt T) > 0\<close>: the delta is above 0.5, hence above
  0.4.  It is below 0.7 whenever \<open>d1 < 0.4\<close>; for larger \<open>d1\<close> (a low volatility or a
  long time to expiry) the bound 0.7 does not hold.
\<close>

theorem at_the_money_call_delta:
  assumes "0 < S" and "0 < sigma"
  shows "\<exists>delta. calculate_delta S S sigma parsed ''call'' = Inr delta
           \<and> 0.4 < delta \<and> 0.5 < delta
           \<and> ((0.05 + 0.5 * sigma\<^sup>2) * calculate_days_to_expiration parsed
                 < 0.4 * (sigma * sqrt (calculate_days_to_expiration parsed))
               \<longrightarrow> delta < 0.7)"
proof -
  let ?T = "calculate_days_to_expiration parsed"
  let ?d1 = "(risk_free + 0.5 * sigma\<^sup>2) * ?T / (sigma * sqrt ?T)"
  have T: "0 < ?T" by (rule calculate_days_to_expiration_pos)
  have den: "0 < sigma * sqrt ?T" using assms(2) T by simp
  have num: "0 < (risk_free + 0.5 * sigma\<^sup>2) * ?T"
    using T by (intro mult_pos_pos add_pos_nonneg) (simp_all add: risk_free_def)
  have d1: "0 < ?d1" using num den by (rule divide_pos_pos)
  have half: "1 / 2 < norm_cdf ?d1" using d1 by (rule norm_cdf_gt_half)
  have small: "norm_cdf ?d1 < 0.7"
    if "(0.05 + 0.5 * sigma\<^sup>2) * ?T < 0.4 * (sigma * sqrt ?T)"
  proof -
    from that den have "?d1 < 2 / 5"
      by (simp add: risk_free_def pos_divide_less_eq)
    with d1 have "norm_cdf ?d1 < 7 / 10" by (intro norm_cdf_small) simp_all
    then show ?thesis by simp
  qed
  show ?thesis
  proof (intro exI conjI impI)
    show "calculate_delta S S sigma parsed ''call'' = Inr (norm_cdf ?d1)"
      using assms by (rule calculate_delta_at_the_money)
    show "0.4 < norm_cdf ?d1" using half by simp
    show "0.5 < norm_cdf ?d1" using half by simp
    show "norm_cdf ?d1 < 0.7"
      if "(0.05 + 0.5 * sigma\<^sup>2) * ?T < 0.4 * (sigma * sqrt ?T)"
      using that by (rule small)
  qed
qed

theorem at_the_money_call_delta_witness:
  "\<exists>delta. calculate_delta 100 100 0.2 (Some 365) ''call'' = Inr delta
      \<and> 0.4 < delta \<and> delta < 0.7"
proof -
  have "(0.05 + 0.5 * (0.2::real)\<^sup>2) * calculate_days_to_expiration (Some 365)
      < 0.4 * (0.2 * sqrt (calculate_days_to_expiration (Some 365)))"
    by (simp add: calculate_days_to_expiration_def power2_eq_square)
  then show ?thesis
    using at_the_money_call_delta [of 100 "0.2" "Some 365"] by auto
qed

text \<open>
  Claim C1 as stated bounds every at-the-money call delta by 0.7.  With a volatility of 5%
  and an expiration 365 days ahead, \<open>T = 1\<close> and \<open>d1 = 1.025\<close>, and the delta
  \<open>norm.cdf(1.025)\<close> is above 0.7.
\<close>

theorem at_the_money_call_delta_counterexample:
  "calculate_delta 100 100 0.05 (Some 365) ''call'' = Inr (norm_cdf 1.025)
 \<and> 0.7 < norm_cdf 1.025"
proof
  have result: "calculate_delta 100 100 0.05 (Some 365) ''call'' =
      Inr (norm_cdf ((risk_free + 0.5 * 0.05\<^sup>2) * calculate_days_to_expiration (Some 365)
             / (0.05 * sqrt (calculate_days_to_expiration (Some 365)))))"
    by (rule calculate_delta_at_the_money) simp_all
  have d1: "(risk_free + 0.5 * 0.05\<^sup>2) * calculate_days_to_expiration (Some 365)
             / (0.05 * sqrt (calculate_days_to_expiration (Some 365))) = 1.025"
    by (simp add: calculate_days_to_expiration_def risk_free_def power2_eq_square)
  show "calculate_delta 100 100 0.05 (Some 365) ''call'' = Inr (norm_cdf 1.025)"
    by (simp only: result d1)
  have "norm_cdf 1 \<le> norm_cdf 1.025"
    by (rule norm_cdf_mono) simp
  then show "0.7 < norm_cdf 1.025"
    using norm_cdf_one by simp
qed

section \<open>Properties of the technical indicators\<close>

subsection \<open>Simple moving average\<close>

lemma emit_filter:
  "emit ps = map (\<lambda>(t, v). \<lparr>time = t, value = v\<rparr>) (filter (\<lambda>(t, v). v \<noteq> NaN) ps)"
  by (induction ps rule: emit.induct) simp_all

lemma zip_map_upt:
  "length ts = n \<Longrightarrow> zip ts (map f [0..<n]) = map (\<lambda>i. (ts ! i, f i)) [0..<n]"
  by (rule nth_equalityI) simp_all

lemma filter_upt_from: "filter (\<lambda>i. k \<le> i) [0..<n] = [k..<n]"
proof (induction n)
  case 0
  then show ?case by simp
next
  case (Suc n)
  then show ?case by (cases "k \<le> n") (simp_all add: upt_rec [of k "Suc n"] not_le)
qed

lemma emit_indexed:
  assumes len: "length ts = n"
    and nan: "\<And>i. i < n \<Longrightarrow> f i \<noteq> NaN \<longleftrightarrow> k \<le> i"
  shows "emit (zip ts (map f [0..<n])) = map (\<lambda>i. \<lparr>time = ts ! i, value = f i\<rparr>) [k..<n]"
proof -
  have "filter (\<lambda>(t, v). v \<noteq> NaN) (map (\<lambda>i. (ts ! i, f i)) [0..<n])
      = map (\<lambda>i. (ts ! i, f i)) (filter (\<lambda>i. k \<le> i) [0..<n])"
    unfolding filter_map by (rule arg_cong [where f = "map _"], rule filter_cong) (auto simp: nan)
  then show ?thesis
    by (simp add: emit_filter zip_map_upt [OF len] filter_upt_from)
qed

lemma calculate_sma_eq:
  assumes "1 \<le> w"
  shows "calculate_sma data w =
     map (\<lambda>i. \<lparr>time = stamp (data ! i),
               value = Fin (sum_list (take w (drop (i + 1 - w) (map close data))) / real w)\<rparr>)
         [w - 1..<length data]"
proof -
  let ?f = "rolling_at w (map close data)"
  have "emit (zip (map stamp data) (map ?f [0..<length data]))
      = map (\<lambda>i. \<lparr>time = map stamp data ! i, value = ?f i\<rparr>) [w - 1..<length data]"
    using assms by (intro emit_indexed) (auto simp: rolling_at_def)
  also have "\<dots> = map (\<lambda>i. \<lparr>time = stamp (data ! i),
               value = Fin (sum_list (take w (drop (i + 1 - w) (map close data))) / real w)\<rparr>)
         [w - 1..<length data]"
    using assms by (intro map_cong) (auto simp: rolling_at_def)
  finally show ?thesis
    by (simp add: calculate_sma_def rolling_mean_def)
qed

text \<open>
  Claim C5.  For a price series of \<open>n\<close> closes and a window \<open>w \<ge> 1\<close>:
  when \<open>n < w\<close>, \<open>calculate_sma\<close> returns the empty list; when \<open>n \<ge> w\<close> it
  returns exactly \<open>n - w + 1\<close> points, the \<open>j\<close>-th one stamped with the bar at index
  \<open>j + w - 1\<close> and valued with the arithmetic mean of the \<open>w\<close> closes ending there.
\<close>

theorem calculate_sma_points:
  assumes "1 \<le> w"
  shows "(length data < w \<longrightarrow> calculate_sma data w = [])
       \<and> (w \<le> length data \<longrightarrow>
            length (calculate_sma data w) = length data - w + 1
          \<and> (\<forall>j < length data - w + 1.
                calculate_sma data w ! j =
                  \<lparr>time = stamp (data ! (j + w - 1)),
                   value = Fin (sum_list (map close (take w (drop j data))) / real w)\<rparr>))"
proof (intro conjI impI allI)
  assume "length data < w"
  then show "calculate_sma data w = []"
    by (simp add: calculate_sma_eq [OF assms])
next
  assume "w \<le> length data"
  then show "length (calculate_sma data w) = length data - w + 1"
    using assms by (simp add: calculate_sma_eq [OF assms])
next
  fix j
  assume w: "w \<le> length data" and j: "j < length data - w + 1"
  have "w - 1 + j + 1 - w = j" "w - 1 + j = j + w - 1"
    using assms by simp_all
  then show "calculate_sma data w ! j =
       \<lparr>time = stamp (data ! (j + w - 1)),
        value = Fin (sum_list (map close (take w (drop j data))) / real w)\<rparr>"
    using assms w j by (simp add: calculate_sma_eq [OF assms] take_map drop_map)
qed

theorem calculate_sma_points_witness:
  "calculate_sma [\<lparr>stamp = 10, close = 4\<rparr>] 2 = []
 \<and> length (calculate_sma [\<lparr>stamp = 10, close = 4\<rparr>, \<lparr>stamp = 20, close = 6\<rparr>,
       \<lparr>stamp = 30, close = 11\<rparr>] 2) = 2
 \<and> calculate_sma [\<lparr>stamp = 10, close = 4\<rparr>, \<lparr>stamp = 20, close = 6\<rparr>,
       \<lparr>stamp = 30, close = 11\<rparr>] 2 ! 1 = \<lparr>time = 30, value = Fin (17 / 2)\<rparr>"
  using calculate_sma_points [of 2 "[\<lparr>stamp = 10, close = 4\<rparr>]"]
    calculate_sma_points [of 2 "[\<lparr>stamp = 10, close = 4\<rparr>, \<lparr>stamp = 20, close = 6\<rparr>,
       \<lparr>stamp = 30, close = 11\<rparr>]"]
  by simp

subsection \<open>RSI on a rising series\<close>

lemma length_diff_from: "length (diff_from prev xs) = length xs"
  by (induction xs arbitrary: prev) simp_all

lemma length_diff: "length (diff xs) = length xs"
  by (cases xs) (simp_all add: length_diff_from)

lemma diff_from_rising:
  "sorted_wrt (<) (prev # xs) \<Longrightarrow> d \<in> set (diff_from prev xs) \<Longrightarrow> \<exists>v. d = Some v \<and> 0 < v"
  by (induction xs arbitrary: prev) auto

lemma diff_rising_loss:
  assumes "sorted_wrt (<) xs"
  shows "map (\<lambda>d. - keep_negative d) (diff xs) = replicate (length xs) 0"
proof -
  have "- keep_negative d = 0" if "d \<in> set (diff xs)" for d
  proof (cases xs)
    case Nil
    with that show ?thesis by simp
  next
    case (Cons x rest)
    with that assms diff_from_rising [of x rest d] show ?thesis by auto
  qed
  then have "map (\<lambda>d. - keep_negative d) (diff xs) = map (\<lambda>d. 0) (diff xs)"
    by (intro map_cong) simp_all
  then show ?thesis
    by (simp add: map_replicate_const length_diff)
qed

lemma diff_rising_gain_nonneg: "g \<in> set (map keep_positive (diff xs)) \<Longrightarrow> 0 \<le> g"
proof -
  have "0 \<le> keep_positive d" for d by (cases d) simp_all
  then show "g \<in> set (map keep_positive (diff xs)) \<Longrightarrow> 0 \<le> g" by auto
qed

lemma diff_rising_gain_pos:
  assumes "sorted_wrt (<) xs" and "1 \<le> i" and "i < length xs"
  shows "0 < map keep_positive (diff xs) ! i"
proof (cases xs)
  case Nil
  with assms show ?thesis by simp
next
  case (Cons x rest)
  from assms Cons have "i - 1 < length (diff_from x rest)"
    by (simp add: length_diff_from)
  then have "diff_from x rest ! (i - 1) \<in> set (diff_from x rest)"
    by (rule nth_mem)
  with assms(1) Cons diff_from_rising [of x rest "diff_from x rest ! (i - 1)"]
  obtain v where "diff_from x rest ! (i - 1) = Some v" "0 < v" by auto
  moreover obtain k where "i = Suc k"
    using assms(2) not0_implies_Suc [of i] by auto
  ultimately show ?thesis
    using assms Cons by (simp add: length_diff_from)
qed

lemma sum_list_pos_member:
  fixes xs :: "real list"
  assumes "\<And>x. x \<in> set xs \<Longrightarrow> 0 \<le> x" and "y \<in> set xs" and "0 < y"
  shows "0 < sum_list xs"
  using assms
proof (induction xs)
  case Nil
  then show ?case by simp
next
  case (Cons a xs)
  have "0 \<le> sum_list xs" using Cons.prems(1) by (intro sum_list_nonneg) simp
  moreover have "0 \<le> a" using Cons.prems(1) by simp
  ultimately show ?case using Cons by (cases "y = a") (auto intro: add_pos_nonneg add_nonneg_pos)
qed

lemma window_gain_pos:
  assumes rising: "sorted_wrt (<) xs" and i: "13 \<le> i" "i < length xs"
  shows "0 < sum_list (take 14 (drop (i - 13) (map keep_positive (diff xs))))"
proof -
  let ?g = "map keep_positive (diff xs)"
  let ?w = "take 14 (drop (i - 13) ?g)"
  have len: "length ?g = length xs" by (simp add: length_diff)
  have "?w ! 13 = ?g ! i" using i len by simp
  moreover have "13 < length ?w" using i len by simp
  ultimately have mem: "?g ! i \<in> set ?w" by (metis nth_mem)
  have pos: "0 < ?g ! i" using rising i by (intro diff_rising_gain_pos) simp_all
  have "0 \<le> x" if "x \<in> set ?w" for x
    using that diff_rising_gain_nonneg [of x xs] by (auto dest!: in_set_takeD in_set_dropD)
  then show ?thesis using mem pos by (rule sum_list_pos_member)
qed

lemma window_loss_zero: "sum_list (take w (drop k (replicate n (0::real)))) = 0"
  by (simp add: sum_list_replicate)

lemma zip_map_map_upt:
  "zip (map g [0..<n]) (map h [0..<n]) = map (\<lambda>i. (g i, h i)) [0..<n]"
  by (rule nth_equalityI) simp_all

lemma calculate_rsi_rising:
  assumes rising: "sorted_wrt (<) (map close data)"
  shows "calculate_rsi data 14 =
     map (\<lambda>i. \<lparr>time = stamp (data ! i), value = Fin 100\<rparr>) [13..<length data]"
proof -
  let ?xs = "map close data"
  let ?n = "length data"
  let ?gain = "rolling_at 14 (map keep_positive (diff ?xs))"
  let ?loss = "rolling_at 14 (replicate ?n 0)"
  let ?rsi = "\<lambda>i. pd_sub (Fin 100) (pd_div (Fin 100) (pd_add (Fin 1) (pd_div (?gain i) (?loss i))))"
  have rsi_at: "?rsi i = (if i < 13 then NaN else Fin 100)" if "i < ?n" for i
  proof (cases "i < 13")
    case True
    then show ?thesis by (simp add: pd_sub_def rolling_at_def)
  next
    case False
    then have "0 < sum_list (take 14 (drop (i - 13) (map keep_positive (diff ?xs))))"
      using rising that by (intro window_gain_pos) simp_all
    with False show ?thesis by (simp add: pd_sub_def rolling_at_def sum_list_replicate)
  qed
  have "calculate_rsi data 14 = emit (zip (map stamp data) (map ?rsi [0..<?n]))"
    using diff_rising_loss [OF rising]
    by (simp add: calculate_rsi_def rolling_mean_def length_diff zip_map_map_upt comp_def)
  also have "\<dots> = map (\<lambda>i. \<lparr>time = map stamp data ! i, value = ?rsi i\<rparr>) [13..<?n]"
    by (rule emit_indexed) (simp_all add: rsi_at)
  also have "\<dots> = map (\<lambda>i. \<lparr>time = stamp (data ! i), value = Fin 100\<rparr>) [13..<?n]"
    by (rule map_cong) (simp_all add: rsi_at)
  finally show ?thesis .
qed

text \<open>
  Claim C6.  On a strictly increasing price series of at least 15 closes,
  \<open>calculate_rsi\<close> with period 14 emits one point for every bar from index 13 on, and
  every emitted value is exactly 100: the trailing average loss is 0, the average gain is
  positive, so the relative strength is infinite and \<open>100 - 100 / (1 + rs)\<close> is 100.
  In particular every emitted value lies in the closed interval from 0 to 100.
\<close>

theorem calculate_rsi_monotone_series:
  assumes "sorted_wrt (<) (map close data)" and "15 \<le> length data"
  shows "length (calculate_rsi data 14) = length data - 13
       \<and> (\<forall>p \<in> set (calculate_rsi data 14).
            value p = Fin 100 \<and> (\<exists>v. value p = Fin v \<and> 0 \<le> v \<and> v \<le> 100))"
  by (auto simp: calculate_rsi_rising [OF assms(1)])

theorem calculate_rsi_monotone_series_witness:
  "length (calculate_rsi (map (\<lambda>i. \<lparr>stamp = int i, close = real i\<rparr>) [0..<16]) 14) = 3
 \<and> value (calculate_rsi (map (\<lambda>i. \<lparr>stamp = int i, close = real i\<rparr>) [0..<16]) 14 ! 0) = Fin 100
 \<and> value (calculate_rsi (map (\<lambda>i. \<lparr>stamp = int i, close = real i\<rparr>) [0..<16]) 14 ! 2) = Fin 100"
proof -
  let ?data = "map (\<lambda>i. \<lparr>stamp = int i, close = real i\<rparr>) [0..<16]"
  have "sorted_wrt (<) (map close ?data)"
    by (simp add: sorted_wrt_map comp_def)
  moreover have "15 \<le> length ?data"
    by simp
  ultimately have len: "length (calculate_rsi ?data 14) = length ?data - 13"
    and all: "\<forall>p \<in> set (calculate_rsi ?data 14). value p = Fin 100"
    using calculate_rsi_monotone_series [of ?data] by blast+
  from len have len3: "length (calculate_rsi ?data 14) = 3" by simp
  then have "calculate_rsi ?data 14 ! 0 \<in> set (calculate_rsi ?data 14)"
    and "calculate_rsi ?data 14 ! 2 \<in> set (calculate_rsi ?data 14)"
    by simp_all
  with all len3 show ?thesis by blast
qed

section \<open>Properties of the portfolio analytics\<close>

subsection \<open>Portfolio weights\<close>

lemma divide_weights_nonzero:
  "tw \<noteq> 0 \<Longrightarrow> divide_weights ws tw = Inr (map (\<lambda>(k, v). (k, v / tw)) ws)"
  by (induction ws) (auto simp: py_div_def)

text \<open>
  Weights that sum to 1 within an absolute tolerance of 0.01 are used as supplied, and no
  warning is logged.
\<close>

theorem weights_within_tolerance:
  "\<bar>sum_list (map snd ws) - 1\<bar> \<le> 0.01 \<Longrightarrow>
     calculate_portfolio_metrics_weights symbols (Some ws)
       = Inr \<lparr>portfolio_weights = ws, warned = False\<rparr>"
  by (simp add: calculate_portfolio_metrics_weights_def)

theorem weights_within_tolerance_witness:
  "calculate_portfolio_metrics_weights [''AAPLx'', ''TSLAx'']
     (Some [(''AAPLx'', 0.6), (''TSLAx'', 0.395)])
   = Inr \<lparr>portfolio_weights = [(''AAPLx'', 0.6), (''TSLAx'', 0.395)], warned = False\<rparr>"
  using weights_within_tolerance
    [of "[(''AAPLx'', 0.6), (''TSLAx'', 0.395)]" "[''AAPLx'', ''TSLAx'']"]
  by simp

lemma sum_list_divided:
  fixes ws :: "real dict"
  shows "sum_list (map snd (map (\<lambda>(k, v). (k, v / tw)) ws)) = sum_list (map snd ws) / tw"
  by (induction ws) (auto simp: add_divide_distrib)

text \<open>
  Weights whose sum is outside the tolerance and not zero are each divided by the sum, a
  warning is logged, and the new weights sum to 1.
\<close>

theorem weights_renormalized:
  assumes "\<bar>sum_list (map snd ws) - 1\<bar> > 0.01" and "sum_list (map snd ws) \<noteq> 0"
  shows "calculate_portfolio_metrics_weights symbols (Some ws) =
           Inr \<lparr>portfolio_weights = map (\<lambda>(k, v). (k, v / sum_list (map snd ws))) ws,
                warned = True\<rparr>
       \<and> sum_list (map snd (map (\<lambda>(k, v). (k, v / sum_list (map snd ws))) ws)) = 1"
proof
  show "calculate_portfolio_metrics_weights symbols (Some ws) =
           Inr \<lparr>portfolio_weights = map (\<lambda>(k, v). (k, v / sum_list (map snd ws))) ws,
                warned = True\<rparr>"
    using assms by (simp add: calculate_portfolio_metrics_weights_def divide_weights_nonzero)
  show "sum_list (map snd (map (\<lambda>(k, v). (k, v / sum_list (map snd ws))) ws)) = 1"
    unfolding sum_list_divided using assms(2) by simp
qed

theorem weights_renormalized_witness:
  "calculate_portfolio_metrics_weights [''AAPLx'', ''TSLAx'']
     (Some [(''AAPLx'', 3), (''TSLAx'', 1)])
   = Inr \<lparr>portfolio_weights = [(''AAPLx'', 3 / 4), (''TSLAx'', 1 / 4)], warned = True\<rparr>"
  using weights_renormalized [of "[(''AAPLx'', 3), (''TSLAx'', 1)]" "[''AAPLx'', ''TSLAx'']"]
  by simp

text \<open>
  Claim C10.  Weights that sum to 1 within 0.01 are used unchanged, and weights outside
  the tolerance are divided by their total; but the step does raise on some input: a
  non-empty weight dictionary whose values sum to exactly 0 (here a long and a short
  position of equal size) is outside the tolerance, and dividing by the total raises
  \<open>ZeroDivisionError\<close>.
\<close>

theorem weights_zero_total_raises:
  "calculate_portfolio_metrics_weights [''AAPLx'', ''TSLAx''] (Some [(''AAPLx'', 0.5), (''TSLAx'', - 0.5)])
     = Inl ZeroDivisionError"
  by (simp add: calculate_portfolio_metrics_weights_def py_div_def)

subsection \<open>Monte Carlo simulation\<close>

lemma mc_statistics_empty: "mc_statistics [] initial_capital = Inl ValueError"
  by (simp add: mc_statistics_def np_min_def)

lemma mc_statistics_keys:
  assumes "final_values \<noteq> []"
  shows "\<exists>stats. mc_statistics final_values initial_capital = Inr stats
       \<and> map fst stats = [''mean'', ''median'', ''std'', ''min'', ''max'', ''percentile5'',
            ''percentile25'', ''percentile75'', ''percentile95'', ''probPositive'']"
  using assms by (cases final_values) (simp_all add: mc_statistics_def np_min_def np_max_def)

lemma dict_getitem_present:
  "k \<in> set (map fst d) \<Longrightarrow> \<exists>v. dict_getitem d k = Inr v"
  by (cases "map_of d k") (auto simp: dict_getitem_def map_of_eq_None_iff)

lemma dict_getitem_absent:
  "k \<notin> set (map fst d) \<Longrightarrow> dict_getitem d k = Inl (KeyError k)"
  by (simp add: dict_getitem_def map_of_eq_None_iff [THEN iffD2])

lemma percentile_path_present:
  assumes "k \<in> set (map fst stats)" and "final_values \<noteq> []"
  shows "\<exists>path. percentile_path paths final_values stats k = Inr path"
proof -
  from assms(1) obtain v where "dict_getitem stats k = Inr v"
    using dict_getitem_present by blast
  with assms(2) show ?thesis
    by (cases final_values) (simp_all add: percentile_path_def np_argmin_def)
qed

lemma percentile_paths_missing_key:
  assumes keys: "map fst stats = [''mean'', ''median'', ''std'', ''min'', ''max'', ''percentile5'',
            ''percentile25'', ''percentile75'', ''percentile95'', ''probPositive'']"
    and "final_values \<noteq> []"
  shows "percentile_paths paths final_values stats
           [(5, ''percentile5''), (25, ''percentile25''), (50, ''percentile50''),
            (75, ''percentile75''), (95, ''percentile95'')]
         = Inl (KeyError ''percentile50'')"
proof -
  obtain p5 where p5: "percentile_path paths final_values stats ''percentile5'' = Inr p5"
    using percentile_path_present [of "''percentile5''" stats final_values paths] assms
    by auto
  obtain p25 where p25: "percentile_path paths final_values stats ''percentile25'' = Inr p25"
    using percentile_path_present [of "''percentile25''" stats final_values paths] assms
    by auto
  have "''percentile50'' \<notin> set (map fst stats)"
    unfolding keys by simp
  then have p50: "percentile_path paths final_values stats ''percentile50''
      = Inl (KeyError ''percentile50'')"
    by (simp add: percentile_path_def dict_getitem_absent)
  show ?thesis by (simp add: p5 p25 p50)
qed

lemma run_monte_carlo_no_simulation:
  "run_monte_carlo inp initial_capital time_horizon_days 0 sample_indices = Inl ValueError"
  by (simp add: run_monte_carlo_def simulate_def mc_statistics_empty)

text \<open>
  Claim C2, as amended.  Whenever the simulation loop has completed, \<open>run_monte_carlo\<close>
  raises instead of returning.  With at least one simulation the \<open>statistics\<close>
  dictionary is built without the key \<open>percentile50\<close>, and reading it raises
  \<open>KeyError\<close>; with no simulation at all, \<open>np.min\<close> of the empty array of final values
  raises \<open>ValueError\<close> while the dictionary is being built.
\<close>

theorem run_monte_carlo_always_raises:
  "run_monte_carlo inp initial_capital time_horizon_days num_simulations sample_indices
     = Inl (if num_simulations = 0 then ValueError else KeyError ''percentile50'')"
proof (cases "num_simulations = 0")
  case True
  then show ?thesis
    by (simp add: run_monte_carlo_no_simulation)
next
  case False
  let ?paths = "simulate inp initial_capital time_horizon_days num_simulations"
  have "[0..<num_simulations] \<noteq> []"
    using False by simp
  then have nonempty: "map last ?paths \<noteq> []"
    unfolding simulate_def by (simp only: map_is_Nil_conv not_False_eq_True)
  from mc_statistics_keys [OF nonempty, of initial_capital]
  obtain stats where stats: "mc_statistics (map last ?paths) initial_capital = Inr stats"
    and keys: "map fst stats = [''mean'', ''median'', ''std'', ''min'', ''max'', ''percentile5'',
            ''percentile25'', ''percentile75'', ''percentile95'', ''probPositive'']"
    by (elim exE conjE)
  have "percentile_paths ?paths (map last ?paths) stats
           [(5, ''percentile5''), (25, ''percentile25''), (50, ''percentile50''),
            (75, ''percentile75''), (95, ''percentile95'')]
         = Inl (KeyError ''percentile50'')"
    by (rule percentile_paths_missing_key [OF keys nonempty])
  with False stats show ?thesis
    unfolding run_monte_carlo_def Let_def by (simp only: sum.case if_False)
qed

text \<open>
  Claim C2 as stated says that the error is always a \<open>KeyError\<close>.  With
  \<open>num_simulations = 0\<close> the loop completes at once and the error is a \<open>ValueError\<close>.
\<close>

theorem run_monte_carlo_no_simulation_counterexample:
  "run_monte_carlo
     \<lparr>mean_returns = [0.001], cholesky = [[0.02]], asset_weights = [1], randn = (\<lambda>sim day. [0])\<rparr>
     10000 252 0 []
   \<noteq> Inl (KeyError ''percentile50'')"
  by (simp only: run_monte_carlo_no_simulation sum.inject py_error.distinct not_False_eq_True)

section \<open>Properties of the cache layer\<close>

lemma json_roundtrip_idem: "json_roundtrip (json_roundtrip v) = json_roundtrip v"
  unfolding json_roundtrip_def
  by (induction v) (auto simp: map_prod_def split: prod.splits)

lemma set_then_get_redis:
  assumes "redis_answers c" and "0 < ttl"
  shows "fst (get_cache (set_cache c now key v ttl) now key) = json_roundtrip v"
  using assms
  by (auto simp: redis_answers_def set_cache_def get_cache_def redis_lookup_def redis_setex_def
        redis_get_def json_roundtrip_def split: option.splits)

lemma set_then_get_memory:
  assumes "\<not> redis_answers c" and "0 < ttl"
  shows "fst (get_cache (set_cache c now key v ttl) now key) = v"
  using assms
  by (auto simp: redis_answers_def set_cache_def get_cache_def redis_lookup_def redis_setex_def
        redis_get_def memory_set_def split: option.splits)

text \<open>
  Claim C3, as amended.  With a positive time to live and no clock advance, \<open>set_cache\<close>
  followed by \<open>get_cache\<close> of the same key returns: in the Redis path, the value after
  its JSON round trip (tuples have become lists); in the in-process path, the stored value
  itself, with no JSON round trip at all (a tuple stays a tuple).  In both paths the result
  equals the value up to a JSON round trip.
\<close>

theorem cache_round_trip:
  assumes "0 < ttl"
  shows "(redis_answers c \<longrightarrow>
            fst (get_cache (set_cache c now key v ttl) now key) = json_roundtrip v)
       \<and> (\<not> redis_answers c \<longrightarrow>
            fst (get_cache (set_cache c now key v ttl) now key) = v)
       \<and> json_roundtrip (fst (get_cache (set_cache c now key v ttl) now key)) = json_roundtrip v"
  using assms set_then_get_redis [of c ttl now key v] set_then_get_memory [of c ttl now key v]
  by (cases "redis_answers c") (simp_all add: json_roundtrip_idem)

theorem cache_round_trip_witness:
  "fst (get_cache (set_cache \<lparr>redis_client = Some \<lparr>reachable = True, entries = Map.empty\<rparr>,
                              memory_cache = Map.empty\<rparr> 0 ''quote'' (PyTuple [PyInt 1]) 300)
         0 ''quote'') = PyList [PyInt 1]
 \<and> fst (get_cache (set_cache \<lparr>redis_client = None, memory_cache = Map.empty\<rparr>
                        0 ''quote'' (PyTuple [PyInt 1]) 300)
         0 ''quote'') = PyTuple [PyInt 1]"
  using cache_round_trip [of 300
      "\<lparr>redis_client = Some \<lparr>reachable = True, entries = Map.empty\<rparr>, memory_cache = Map.empty\<rparr>"
      0 "''quote''" "PyTuple [PyInt 1]"]
    cache_round_trip [of 300 "\<lparr>redis_client = None, memory_cache = Map.empty\<rparr>"
      0 "''quote''" "PyTuple [PyInt 1]"]
  by (simp add: redis_answers_def json_roundtrip_def)

text \<open>
  Claim C3 as stated has the in-process path return the JSON round trip of the value too.
  It returns the tuple that was stored, not the list.
\<close>

theorem cache_round_trip_memory_counterexample:
  "fst (get_cache (set_cache \<lparr>redis_client = None, memory_cache = Map.empty\<rparr>
                      0 ''quote'' (PyTuple [PyInt 1, PyInt 2]) 300)
         0 ''quote'')
   \<noteq> json_roundtrip (PyTuple [PyInt 1, PyInt 2])"
  by (simp add: set_cache_def memory_set_def get_cache_def redis_lookup_def json_roundtrip_def)





section \<open>Properties of the backtest validation\<close>

text \<open>
  The alignment loop computes the set of dates common to all the data frames it is given.
\<close>

lemma align_dates_step:
  "fold (\<lambda>df common_dates.
           case common_dates of
             None \<Rightarrow> Some (set (map stamp df))
           | Some dates \<Rightarrow> Some (dates \<inter> set (map stamp df)))
        frames (Some acc)
     = Some (acc \<inter> (\<Inter>df \<in> set frames. set (map stamp df)))"
proof (induction frames arbitrary: acc)
  case Nil
  then show ?case by simp
next
  case (Cons df frames)
  show ?case
    unfolding fold_Cons comp_def option.case Cons.IH
    by (simp add: Int_assoc)
qed

lemma align_dates_common:
  assumes "frames \<noteq> []"
  shows "align_dates frames = Some (\<Inter>df \<in> set frames. set (map stamp df))"
proof (cases frames)
  case Nil
  with assms show ?thesis by simp
next
  case (Cons df rest)
  have "align_dates (df # rest)
      = Some (set (map stamp df) \<inter> (\<Inter>d \<in> set rest. set (map stamp d)))"
    unfolding align_dates_def fold_Cons comp_def option.case by (rule align_dates_step)
  then show ?thesis
    using Cons by simp
qed

lemma dict_set_new_key:
  "k \<notin> fst ` set d \<Longrightarrow> dict_set d k v = d @ [(k, v)]"
  by (induction d) auto

lemma collect_fold_distinct:
  assumes "distinct (map fst pairs)" and "fst ` set acc \<inter> fst ` set pairs = {}"
  shows "fold (\<lambda>(s, hist_df) stock_data.
                 case hist_df of
                   None \<Rightarrow> stock_data
                 | Some df \<Rightarrow> if df \<noteq> [] then dict_set stock_data s df else stock_data)
              pairs acc
       = acc @ List.map_filter
                 (\<lambda>(s, hist_df).
                    case hist_df of
                      None \<Rightarrow> None
                    | Some df \<Rightarrow> if df \<noteq> [] then Some (s, df) else None)
                 pairs"
  using assms
proof (induction pairs arbitrary: acc)
  case Nil
  then show ?case by (simp add: List.map_filter_simps)
next
  case (Cons p pairs)
  obtain s h where p: "p = (s, h)" by (cases p)
  have rest: "distinct (map fst pairs)" and fresh: "s \<notin> fst ` set pairs"
    and new: "s \<notin> fst ` set acc" and apart: "fst ` set acc \<inter> fst ` set pairs = {}"
    using Cons.prems p by auto
  show ?case
  proof (cases "\<exists>df. h = Some df \<and> df \<noteq> []")
    case True
    then obtain df where h: "h = Some df" "df \<noteq> []" by blast
    have "fst ` set (acc @ [(s, df)]) \<inter> fst ` set pairs = {}"
      using fresh apart by auto
    from Cons.IH [OF rest this] show ?thesis
      by (simp add: p h dict_set_new_key [OF new] List.map_filter_simps)
  next
    case False
    then have skip: "(case h of None \<Rightarrow> acc | Some df \<Rightarrow> if df \<noteq> [] then dict_set acc s df else acc) = acc"
      and none: "(case h of None \<Rightarrow> None | Some df \<Rightarrow> if df \<noteq> [] then Some (s, df) else None) = None"
      by (auto split: option.splits)
    from Cons.IH [OF rest apart] show ?thesis
      by (simp add: p skip none List.map_filter_simps)
  qed
qed

text \<open>
  With distinct symbols, the histories that remain are exactly the fetched, non-empty ones,
  in the order of the request.
\<close>

lemma collect_stock_data_distinct:
  assumes "distinct syms"
  shows "collect_stock_data syms hist_data_list
       = List.map_filter
           (\<lambda>(s, hist_df).
              case hist_df of
                None \<Rightarrow> None
              | Some df \<Rightarrow> if df \<noteq> [] then Some (s, df) else None)
           (zip syms hist_data_list)"
proof -
  have "distinct (map fst (zip syms hist_data_list))"
    using assms by (simp add: map_fst_zip_take)
  from collect_fold_distinct [OF this, of "[]"] show ?thesis
    by (simp add: collect_stock_data_def)
qed

lemma collect_stock_data_no_symbols: "collect_stock_data [] hist_data_list = []"
  by (simp add: collect_stock_data_def)



text \<open>
  Conversely, with at least 50 common dates the handler goes on to the strategy loop, on
  the common dates in ascending order.
\<close>

lemma backtest_enters_loop:
  assumes "length (req_symbols request) = length (request_weights request)"
    and "collect_stock_data (req_symbols request) hist_data_list \<noteq> []"
    and "50 \<le> card (\<Inter>df \<in> set (map snd (collect_stock_data (req_symbols request) hist_data_list)).
            set (map stamp df))"
  shows "backtest_strategy strategy_loop request hist_data_list
           = strategy_loop request (request_weights request)
               (collect_stock_data (req_symbols request) hist_data_list)
               (sorted_list_of_set
                  (\<Inter>df \<in> set (map snd (collect_stock_data (req_symbols request) hist_data_list)).
                     set (map stamp df)))"
proof -
  let ?stock_data = "collect_stock_data (req_symbols request) hist_data_list"
  let ?common = "\<Inter>df \<in> set (map snd ?stock_data). set (map stamp df)"
  have "req_symbols request \<noteq> []"
    using assms(2) collect_stock_data_no_symbols by force
  moreover have "align_dates (map snd ?stock_data) = Some ?common"
    using assms(2) by (intro align_dates_common) simp
  moreover have "?common \<noteq> {}"
    using assms(3) by auto
  ultimately show ?thesis
    using assms by (simp add: backtest_strategy_def Let_def)
qed



end
